theory Spec2Isabelle
  imports Complex_Main
begin

section \<open>The scene engine's objects\<close>

text \<open>
  Modelled from the spec: the Scene Engine (three.js), which \<^verbatim>\<open>modelClass.js\<close>
  drives and which is not among the sources. The spec names what the engine provides:
  scene-graph nodes with transform operations, meshes whose materials carry the fields
  \<open>transparent\<close> and \<open>opacity\<close>, the conversion of a geometry to a wireframe, named
  children, and the traversal of the mesh nodes of a subgraph. What each operation that
  the class calls does (\<open>traverse\<close>, \<open>add\<close>, \<open>remove\<close>, \<open>getObjectByName\<close>,
  \<open>lookAt\<close>, \<open>rotateOnAxis\<close>) is taken from the library's documentation, quoted at
  each definition. The scene graph is a tree of nodes. The spec takes meshes to be
  leaves of it; the library lets any node have children, and so does the model.

  JavaScript numbers are modelled as \<^typ>\<open>real\<close>: the class only stores numbers and
  passes them on, it never computes with them. A mesh is taken to have one material
  (three.js also allows an array of materials, on which the writes of the class would
  have no effect).
\<close>

datatype Vector3 = Vector3 (vec_x: real) (vec_y: real) (vec_z: real)

datatype geometry = BufferGeometry nat | WireframeGeometry geometry

datatype material = Material (transparent: bool) (opacity: real)

datatype line_material = LineBasicMaterial nat

text \<open>
  The kind of a node: a mesh carries a geometry and a material (\<open>isMesh\<close> is true of
  it), a line-segments object carries a geometry and a line material, and every other node
  (a plain \<open>Object3D\<close>, a group, a light) carries neither.
\<close>

datatype kind = Mesh geometry material | LineSegments geometry line_material | Plain

text \<open>
  The orientation of a node is kept as the list of the engine's transform calls made on
  it, oldest first. \<open>replay\<close> below gives the orientation that the calls produce under
  a reading of the two operations, and the quaternions after it give the engine's reading
  of \<open>rotateOnAxis\<close>.
\<close>

datatype transform_call = LookAt Vector3 | RotateOnAxis Vector3 real

datatype Object3D =
  Object3D (name: string) (kind: kind) (calls: "transform_call list") (children: "Object3D list")

datatype Camera = Camera (position: Vector3)

fun isMesh :: "Object3D \<Rightarrow> bool" where
  "isMesh (Object3D nm (Mesh g mat) tc cs) = True"
| "isMesh obj = False"

text \<open>
  \<open>Object3D.lookAt(vector)\<close> (``rotates the object to face a point in world space'')
  and \<open>Object3D.rotateOnAxis(axis, angle)\<close> (``rotate an object along an axis in
  object space; the axis is assumed to be normalized''), as calls recorded on the node.
\<close>

fun lookAt :: "Vector3 \<Rightarrow> Object3D \<Rightarrow> Object3D" where
  "lookAt v (Object3D nm k tc cs) = Object3D nm k (tc @ [LookAt v]) cs"

fun rotateOnAxis :: "Vector3 \<Rightarrow> real \<Rightarrow> Object3D \<Rightarrow> Object3D" where
  "rotateOnAxis axis angle (Object3D nm k tc cs) = Object3D nm k (tc @ [RotateOnAxis axis angle]) cs"

fun replay ::
  "(Vector3 \<Rightarrow> 'q \<Rightarrow> 'q) \<Rightarrow> (Vector3 \<Rightarrow> real \<Rightarrow> 'q \<Rightarrow> 'q) \<Rightarrow> transform_call list \<Rightarrow> 'q \<Rightarrow> 'q" where
  "replay la ro [] q = q"
| "replay la ro (LookAt v # tc) q = replay la ro tc (la v q)"
| "replay la ro (RotateOnAxis axis angle # tc) q = replay la ro tc (ro axis angle q)"

text \<open>
  The engine keeps the orientation of a node as a quaternion.
  \<open>Quaternion.setFromAxisAngle(axis, angle)\<close> and
  \<open>Quaternion.multiplyQuaternions(a, b)\<close> are the library's formulas, over the reals.
  \<open>rotateOnAxis\<close> multiplies the node's quaternion by the rotation from the right
  (\<open>this.quaternion.multiply(q1)\<close>): the rotation is about the node's own axis, in object
  space. A rotation about a world axis, which the library has as
  \<open>rotateOnWorldAxis\<close> (``rotate an object along an axis in world space''), multiplies from
  the left (\<open>this.quaternion.premultiply(q1)\<close>). The class calls only the first.
\<close>

datatype Quaternion = Quaternion (quat_x: real) (quat_y: real) (quat_z: real) (quat_w: real)

definition identity :: Quaternion where
  "identity = Quaternion 0 0 0 1"

definition setFromAxisAngle :: "Vector3 \<Rightarrow> real \<Rightarrow> Quaternion" where
  "setFromAxisAngle axis angle =
     Quaternion (vec_x axis * sin (angle / 2)) (vec_y axis * sin (angle / 2))
       (vec_z axis * sin (angle / 2)) (cos (angle / 2))"

fun multiplyQuaternions :: "Quaternion \<Rightarrow> Quaternion \<Rightarrow> Quaternion" where
  "multiplyQuaternions (Quaternion qax qay qaz qaw) (Quaternion qbx qby qbz qbw) =
     Quaternion (qax * qbw + qaw * qbx + qay * qbz - qaz * qby)
                (qay * qbw + qaw * qby + qaz * qbx - qax * qbz)
                (qaz * qbw + qaw * qbz + qax * qby - qay * qbx)
                (qaw * qbw - qax * qbx - qay * qby - qaz * qbz)"

definition rotateOnAxis_quaternion :: "Vector3 \<Rightarrow> real \<Rightarrow> Quaternion \<Rightarrow> Quaternion" where
  "rotateOnAxis_quaternion axis angle q = multiplyQuaternions q (setFromAxisAngle axis angle)"

definition rotateOnWorldAxis_quaternion :: "Vector3 \<Rightarrow> real \<Rightarrow> Quaternion \<Rightarrow> Quaternion" where
  "rotateOnWorldAxis_quaternion axis angle q = multiplyQuaternions (setFromAxisAngle axis angle) q"

text \<open>
  \<open>Object3D.traverse(callback)\<close> (``executes the callback on this object and all
  descendants''): the callback runs on the node itself, then the traversal descends into
  the node's children as the callback left them, in order. The callback is arbitrary, so
  the traversal need not return: \<open>None\<close> is a traversal that never ends.
\<close>

primrec traverse_children ::
  "(Object3D \<Rightarrow> Object3D option) \<Rightarrow> Object3D list \<Rightarrow> Object3D list option" where
  "traverse_children g [] = Some []"
| "traverse_children g (c # cs) =
     Option.bind (g c) (\<lambda>c'. Option.bind (traverse_children g cs) (\<lambda>cs'. Some (c' # cs')))"

lemma traverse_children_mono [partial_function_mono]:
  assumes "\<And>c. mono_option (\<lambda>f. g f c)"
  shows "mono_option (\<lambda>f. traverse_children (g f) cs)"
  by (induction cs) (auto intro!: partial_function_mono assms)

partial_function (option) traverse :: "(Object3D \<Rightarrow> Object3D) \<Rightarrow> Object3D \<Rightarrow> Object3D option" where
  "traverse callback obj =
     (case callback obj of Object3D nm k tc cs \<Rightarrow>
        Option.bind (traverse_children (traverse callback) cs)
          (\<lambda>cs'. Some (Object3D nm k tc cs')))"

text \<open>
  \<open>Object3D.getObjectByName(name)\<close> (``searches through an object and its children,
  starting with the object itself, and returns the first with a matching name'') looks at
  the node itself first and then at its children depth-first, in order; it returns
  \<open>undefined\<close> (\<open>None\<close>) when there is none. Nodes are compared by identity in
  JavaScript, so the result is a reference: here the path of child indices from the
  searched node to the node found (\<open>[]\<close> is the searched node itself, \<open>[i]\<close> its
  \<open>i\<close>-th child).
\<close>

fun getObjectByName :: "string \<Rightarrow> Object3D \<Rightarrow> nat list option"
  and getObjectByName_children :: "string \<Rightarrow> nat \<Rightarrow> Object3D list \<Rightarrow> nat list option" where
  "getObjectByName v (Object3D nm k tc cs) =
     (if nm = v then Some [] else getObjectByName_children v 0 cs)"
| "getObjectByName_children v i [] = None"
| "getObjectByName_children v i (c # cs) =
     (case getObjectByName v c of
        Some p \<Rightarrow> Some (i # p)
      | None \<Rightarrow> getObjectByName_children v (Suc i) cs)"

text \<open>
  \<open>Object3D.add(object)\<close> appends a child. \<open>Object3D.remove(object)\<close> looks the
  object up among the node's own children (\<open>children.indexOf\<close>) and splices it out; an
  object that is not a child of the node (the node itself, a deeper descendant, or
  \<open>undefined\<close>) leaves the node as it is.
\<close>

fun add :: "Object3D \<Rightarrow> Object3D \<Rightarrow> Object3D" where
  "add w (Object3D nm k tc cs) = Object3D nm k tc (cs @ [w])"

fun remove :: "nat list option \<Rightarrow> Object3D \<Rightarrow> Object3D" where
  "remove (Some [i]) (Object3D nm k tc cs) = Object3D nm k tc (take i cs @ drop (Suc i) cs)"
| "remove r obj = obj"

section \<open>The vistas and the model class\<close>

definition FRONTAL :: Vector3 where "FRONTAL = Vector3 0 0 0"
definition TRANSERA :: Vector3 where "TRANSERA = Vector3 90 90 0"
definition IZQUIERO :: Vector3 where "IZQUIERO = Vector3 90 90 90"
definition DERECHA :: Vector3 where "DERECHA = Vector3 180 180 180"
definition ARRIBA :: Vector3 where "ARRIBA = Vector3 0 0 180"
definition ABAJO :: Vector3 where "ABAJO = Vector3 90 180 0"
definition ISOMETRICA :: Vector3 where "ISOMETRICA = Vector3 30 30 0"

record Modo =
  sombreado :: bool
  alambre :: bool
  transperante :: bool
  bordes :: bool

text \<open>
  The fields \<open>_object\<close>, \<open>_vista\<close>, \<open>_modo\<close>, \<open>_modoOldState\<close> and \<open>_viewChange\<close>.
  The setter of \<open>_object\<close> stores whatever it is given, so the field may hold \<open>null\<close>
  (\<open>None\<close>).
\<close>

record Model =
  object :: "Object3D option"
  vista :: Vector3
  modo :: Modo
  modoOldState :: Modo
  viewChange :: bool

definition Model_constructor :: Model where
  "Model_constructor =
     \<lparr> object = Some (Object3D [] Plain [] []),
       vista = FRONTAL,
       modo = \<lparr> sombreado = True, alambre = False, transperante = False, bordes = False \<rparr>,
       modoOldState = \<lparr> sombreado = True, alambre = False, transperante = False, bordes = False \<rparr>,
       viewChange = False \<rparr>"

definition set_object :: "Object3D option \<Rightarrow> Model \<Rightarrow> Model" where
  "set_object obj m = m\<lparr>object := obj\<rparr>"

definition get_object :: "Model \<Rightarrow> Object3D option" where
  "get_object m = object m"

definition set_vista :: "Vector3 \<Rightarrow> Model \<Rightarrow> Model" where
  "set_vista orientation m = m\<lparr>vista := orientation, viewChange := True\<rparr>"

definition degreesToRadians :: "real \<Rightarrow> real" where
  "degreesToRadians degrees = degrees * (pi / 180)"

text \<open>
  A call either returns or throws; a throw keeps the state as it was at the throw.
  \<open>TypeError\<close> is JavaScript's error for a property read of \<open>null\<close> or \<open>undefined\<close>;
  \<open>NoReturn\<close> stands for a traversal that never ends.
\<close>

datatype error = TypeError | NoReturn

type_synonym outcome = "(error \<times> Model) + Model"

definition state_of :: "outcome \<Rightarrow> Model" where
  "state_of r = (case r of Inl (e, m) \<Rightarrow> m | Inr m \<Rightarrow> m)"

text \<open>
  \<open>_updateRotation(camera)\<close>. The first statements read \<open>this._object.position\<close> into
  a local that is never used; the read throws when \<open>_object\<close> is \<open>null\<close>, as
  \<open>camera.position\<close> does when the camera is.
\<close>

definition updateRotation :: "Camera option \<Rightarrow> Model \<Rightarrow> outcome" where
  "updateRotation camera m =
     (if viewChange m then
        (case object m of
           None \<Rightarrow> Inl (TypeError, m)
         | Some obj \<Rightarrow>
             (case camera of
                None \<Rightarrow> Inl (TypeError, m)
              | Some cam \<Rightarrow>
                  Inr (m\<lparr>object :=
                          Some (rotateOnAxis (Vector3 0 0 1) (vec_z (vista m))
                                 (rotateOnAxis (Vector3 0 1 0) (vec_y (vista m))
                                   (rotateOnAxis (Vector3 1 0 0) (vec_x (vista m))
                                     (lookAt (position cam) obj)))),
                        viewChange := False\<rparr>)))
      else Inr m)"

definition set_alambre :: "bool \<Rightarrow> Model \<Rightarrow> Model" where
  "set_alambre boolean m = m\<lparr>modo := (modo m)\<lparr>alambre := boolean\<rparr>\<rparr>"

definition get_alambre :: "Model \<Rightarrow> bool" where
  "get_alambre m = alambre (modo m)"

definition set_transparente :: "bool \<Rightarrow> Model \<Rightarrow> Model" where
  "set_transparente boolean m = m\<lparr>modo := (modo m)\<lparr>transperante := boolean\<rparr>\<rparr>"

definition get_transparente :: "Model \<Rightarrow> bool" where
  "get_transparente m = transperante (modo m)"

definition set_sombreado :: "bool \<Rightarrow> Model \<Rightarrow> Model" where
  "set_sombreado boolean m = m\<lparr>modo := (modo m)\<lparr>sombreado := boolean\<rparr>\<rparr>"

definition get_sombreado :: "Model \<Rightarrow> bool" where
  "get_sombreado m = sombreado (modo m)"

text \<open>The callbacks that \<open>_updateModo\<close> hands to \<open>traverse\<close>.\<close>

definition wireframe :: "geometry \<Rightarrow> Object3D" where
  "wireframe g =
     Object3D ''wireframe'' (LineSegments (WireframeGeometry g) (LineBasicMaterial 0xEFEFEF)) [] []"

fun addWireframe :: "Object3D \<Rightarrow> Object3D" where
  "addWireframe (Object3D nm (Mesh g mat) tc cs) = add (wireframe g) (Object3D nm (Mesh g mat) tc cs)"
| "addWireframe child = child"

definition removeWireframe :: "Object3D \<Rightarrow> Object3D" where
  "removeWireframe child =
     (if isMesh child then remove (getObjectByName ''wireframe'' child) child else child)"

fun setMaterial :: "bool \<Rightarrow> real \<Rightarrow> Object3D \<Rightarrow> Object3D" where
  "setMaterial t opac (Object3D nm (Mesh g mat) tc cs) = Object3D nm (Mesh g (Material t opac)) tc cs"
| "setMaterial t opac child = child"

text \<open>\<open>this._object.traverse(callback)\<close> on the model's object.\<close>

definition traverse_object :: "(Object3D \<Rightarrow> Object3D) \<Rightarrow> Model \<Rightarrow> outcome" where
  "traverse_object callback m =
     (case object m of
        None \<Rightarrow> Inl (TypeError, m)
      | Some obj \<Rightarrow>
          (case traverse callback obj of
             None \<Rightarrow> Inl (NoReturn, m)
           | Some obj' \<Rightarrow> Inr (m\<lparr>object := Some obj'\<rparr>)))"

text \<open>
  \<open>_updateModo(scene)\<close> is three blocks in sequence, one per flag: wireframe,
  transparency, shading. Each block is a function here and \<open>updateModo\<close> runs them in the
  source's order.
\<close>

definition updateAlambre :: "Model \<Rightarrow> outcome" where
  "updateAlambre m =
     (if alambre (modo m) \<noteq> alambre (modoOldState m) then
        (case (if alambre (modo m) then traverse_object addWireframe m
               else traverse_object removeWireframe m) of
           Inl e \<Rightarrow> Inl e
         | Inr m1 \<Rightarrow> Inr (m1\<lparr>modoOldState := (modoOldState m1)\<lparr>alambre := alambre (modo m1)\<rparr>\<rparr>))
      else Inr m)"

definition updateTransperante :: "Model \<Rightarrow> outcome" where
  "updateTransperante m =
     (if transperante (modo m) \<noteq> transperante (modoOldState m) \<and> sombreado (modo m) then
        (case (if transperante (modo m) then traverse_object (setMaterial True 0.4) m
               else traverse_object (setMaterial False 0) m) of
           Inl e \<Rightarrow> Inl e
         | Inr m1 \<Rightarrow>
             Inr (m1\<lparr>modoOldState := (modoOldState m1)\<lparr>transperante := transperante (modo m1)\<rparr>\<rparr>))
      else Inr m)"

definition updateSombreado :: "Model \<Rightarrow> outcome" where
  "updateSombreado m =
     (if sombreado (modo m) \<noteq> sombreado (modoOldState m) then
        (case (if \<not> sombreado (modo m) then
                 (case traverse_object (setMaterial True 0) m of
                    Inl e \<Rightarrow> Inl e
                  | Inr m1 \<Rightarrow> Inr (m1\<lparr>modoOldState := (modoOldState m1)\<lparr>transperante := False\<rparr>\<rparr>))
               else traverse_object (setMaterial False 1) m) of
           Inl e \<Rightarrow> Inl e
         | Inr m2 \<Rightarrow> Inr (m2\<lparr>modoOldState := (modoOldState m2)\<lparr>sombreado := sombreado (modo m2)\<rparr>\<rparr>))
      else Inr m)"

definition updateModo :: "Model \<Rightarrow> outcome" where
  "updateModo m =
     (case updateAlambre m of
        Inl e \<Rightarrow> Inl e
      | Inr m1 \<Rightarrow>
          (case updateTransperante m1 of
             Inl e \<Rightarrow> Inl e
           | Inr m2 \<Rightarrow> updateSombreado m2))"

text \<open>\<open>updateModel(scene, camera)\<close>; the scene is not used.\<close>

definition updateModel :: "Camera option \<Rightarrow> Model \<Rightarrow> outcome" where
  "updateModel camera m =
     (case updateRotation camera m of
        Inl e \<Rightarrow> Inl e
      | Inr m1 \<Rightarrow> updateModo m1)"

section \<open>Sequences of calls\<close>

text \<open>
  What a caller can do with a model: use a setter or call \<open>updateModel\<close>. A call that
  throws leaves the state as it was at the throw, and the caller goes on from there.
\<close>

datatype call =
    Set_object "Object3D option"
  | Set_vista Vector3
  | Set_alambre bool
  | Set_transparente bool
  | Set_sombreado bool
  | UpdateModel "Camera option"

fun exec :: "call \<Rightarrow> Model \<Rightarrow> Model" where
  "exec (Set_object obj) m = set_object obj m"
| "exec (Set_vista v) m = set_vista v m"
| "exec (Set_alambre b) m = set_alambre b m"
| "exec (Set_transparente b) m = set_transparente b m"
| "exec (Set_sombreado b) m = set_sombreado b m"
| "exec (UpdateModel camera) m = state_of (updateModel camera m)"

fun run :: "call list \<Rightarrow> Model \<Rightarrow> Model" where
  "run [] m = m"
| "run (c # cs) m = run cs (exec c m)"

text \<open>
  Bookkeeping for the dirty flag, kept beside the model and not read from it. A pass of
  \<open>updateModel\<close> has rotated the object when the object's transform calls are not what
  they were. A vista write is pending from the call of the vista setter until a pass
  rotates the object.
\<close>

definition rotated :: "Model \<Rightarrow> Model \<Rightarrow> bool" where
  "rotated m m' \<longleftrightarrow> map_option calls (object m') \<noteq> map_option calls (object m)"

fun pending :: "bool \<Rightarrow> call \<Rightarrow> Model \<Rightarrow> bool" where
  "pending p (Set_vista v) m = True"
| "pending p (UpdateModel camera) m = (if rotated m (exec (UpdateModel camera) m) then False else p)"
| "pending p c m = p"

fun unreconciled :: "call list \<Rightarrow> Model \<Rightarrow> bool \<Rightarrow> bool" where
  "unreconciled [] m p = p"
| "unreconciled (c # cs) m p = unreconciled cs (exec c m) (pending p c m)"

text \<open>The model with other values in the two \<open>bordes\<close> fields, and an outcome's state changed.\<close>

definition with_bordes :: "bool \<Rightarrow> bool \<Rightarrow> Model \<Rightarrow> Model" where
  "with_bordes b b' m =
     m\<lparr>modo := (modo m)\<lparr>bordes := b\<rparr>, modoOldState := (modoOldState m)\<lparr>bordes := b'\<rparr>\<rparr>"

definition map_outcome :: "(Model \<Rightarrow> Model) \<Rightarrow> outcome \<Rightarrow> outcome" where
  "map_outcome f r = (case r of Inl (e, m) \<Rightarrow> Inl (e, f m) | Inr m \<Rightarrow> Inr (f m))"

section \<open>What the traversals compute\<close>

text \<open>
  The three traversals of \<open>_updateModo\<close> in closed form, by recursion on the scene
  graph: every mesh gets the given material fields; every mesh gets a wireframe child
  appended; every mesh has the object that \<open>getObjectByName\<close> finds removed from its
  children.
\<close>

fun withMaterial :: "bool \<Rightarrow> real \<Rightarrow> Object3D \<Rightarrow> Object3D" where
  "withMaterial t opac (Object3D nm k tc cs) =
     Object3D nm (case k of Mesh g mat \<Rightarrow> Mesh g (Material t opac) | _ \<Rightarrow> k) tc
       (map (withMaterial t opac) cs)"

fun wireframed :: "Object3D \<Rightarrow> Object3D" where
  "wireframed (Object3D nm k tc cs) =
     Object3D nm k tc
       (map wireframed cs @ (case k of Mesh g mat \<Rightarrow> [wireframe g] | _ \<Rightarrow> []))"

fun unwireframed :: "Object3D \<Rightarrow> Object3D" where
  "unwireframed (Object3D nm k tc cs) =
     remove (if isMesh (Object3D nm k tc cs)
             then getObjectByName ''wireframe'' (Object3D nm k tc cs) else None)
       (Object3D nm k tc (map unwireframed cs))"

text \<open>
  A model is settled when a pass of \<open>_updateModo\<close> has nothing to do: the wireframe and
  shading snapshots equal the flags, and so does the transparency snapshot unless shading
  is off.
\<close>

definition settled :: "Model \<Rightarrow> bool" where
  "settled m \<longleftrightarrow>
     alambre (modoOldState m) = alambre (modo m) \<and>
     sombreado (modoOldState m) = sombreado (modo m) \<and>
     (sombreado (modo m) \<longrightarrow> transperante (modoOldState m) = transperante (modo m))"

text \<open>
  Two loaded objects: a mesh with a mesh child, as a glTF scene with nested nodes gives,
  and a mesh that is itself named \<open>wireframe\<close>.
\<close>

definition nested :: Object3D where
  "nested =
     Object3D ''Body'' (Mesh (BufferGeometry 0) (Material False 1)) []
       [Object3D ''Wheel'' (Mesh (BufferGeometry 1) (Material False 1)) [] []]"

definition named_wireframe :: Object3D where
  "named_wireframe = Object3D ''wireframe'' (Mesh (BufferGeometry 0) (Material False 1)) [] []"

text \<open>A new model once the load callback has assigned the loaded object.\<close>

definition loaded :: "Object3D \<Rightarrow> Model" where
  "loaded obj = set_object (Some obj) Model_constructor"

text \<open>A loaded object of one mesh, and the camera of \<open>createCamera\<close>.\<close>

definition cube :: Object3D where
  "cube = Object3D ''Cube'' (Mesh (BufferGeometry 0) (Material False 1)) [] []"

definition camera0 :: Camera where
  "camera0 = Camera (Vector3 100 100 100)"

section \<open>Lemmas about the traversals and the three blocks\<close>

lemma traverse_children_map:
  "(\<And>c. c \<in> set cs \<Longrightarrow> g c = Some (f c)) \<Longrightarrow> traverse_children g cs = Some (map f cs)"
  by (induction cs) simp_all

lemma traverse_step:
  "callback obj = Object3D nm k tc cs \<Longrightarrow>
   traverse_children (traverse callback) cs = Some cs' \<Longrightarrow>
   traverse callback obj = Some (Object3D nm k tc cs')"
  by (subst traverse.simps) simp

lemma traverse_setMaterial: "traverse (setMaterial t opac) obj = Some (withMaterial t opac obj)"
proof (induction obj)
  case (Object3D nm k tc cs)
  then have cs: "traverse_children (traverse (setMaterial t opac)) cs = Some (map (withMaterial t opac) cs)"
    by (intro traverse_children_map) simp
  show ?case
    by (cases k) (simp_all add: traverse_step [OF _ cs])
qed

lemma traverse_children_append:
  "traverse_children g xs = Some xs' \<Longrightarrow> traverse_children g ys = Some ys' \<Longrightarrow>
   traverse_children g (xs @ ys) = Some (xs' @ ys')"
  by (induction xs arbitrary: xs') (auto split: Option.bind_splits)

lemma traverse_wireframe_leaf: "traverse addWireframe (wireframe g) = Some (wireframe g)"
  unfolding wireframe_def by (rule traverse_step [where cs = "[]" and cs' = "[]"]) simp_all

lemma traverse_addWireframe: "traverse addWireframe obj = Some (wireframed obj)"
proof (induction obj)
  case (Object3D nm k tc cs)
  then have cs: "traverse_children (traverse addWireframe) cs = Some (map wireframed cs)"
    by (intro traverse_children_map) simp
  have cs1: "traverse_children (traverse addWireframe) (cs @ [wireframe g]) =
      Some (map wireframed cs @ [wireframe g])" for g
    by (rule traverse_children_append [OF cs]) (simp add: traverse_wireframe_leaf)
  show ?case
  proof (cases k)
    case (Mesh g mat)
    then show ?thesis by (simp add: traverse_step [OF _ cs1 [of g]])
  qed (simp_all add: traverse_step [OF _ cs])
qed

lemma remove_not_child:
  "(\<And>i. r \<noteq> Some [i]) \<Longrightarrow> remove r obj = obj"
  by (cases "(r, obj)" rule: remove.cases) auto

lemma traverse_removeWireframe: "traverse removeWireframe obj = Some (unwireframed obj)"
proof (induction obj)
  case (Object3D nm k tc cs)
  have sub: "traverse_children (traverse removeWireframe) xs = Some (map unwireframed xs)"
    if "set xs \<subseteq> set cs" for xs
    using that Object3D by (intro traverse_children_map) auto
  let ?obj = "Object3D nm k tc cs"
  show ?case
  proof (cases "isMesh ?obj")
    case False
    then have "traverse removeWireframe ?obj = Some (Object3D nm k tc (map unwireframed cs))"
      by (intro traverse_step [OF _ sub [OF subset_refl]]) (simp add: removeWireframe_def)
    with False show ?thesis by simp
  next
    case True
    show ?thesis
    proof (cases "\<exists>i. getObjectByName ''wireframe'' ?obj = Some [i]")
      case True
      then obtain i where i: "getObjectByName ''wireframe'' ?obj = Some [i]" by blast
      have "set (take i cs @ drop (Suc i) cs) \<subseteq> set cs"
        by (auto dest: in_set_takeD in_set_dropD)
      from sub [OF this] have
        "traverse removeWireframe ?obj =
           Some (Object3D nm k tc (map unwireframed (take i cs @ drop (Suc i) cs)))"
        using \<open>isMesh ?obj\<close> i
        by (intro traverse_step [where cs = "take i cs @ drop (Suc i) cs"])
           (simp_all add: removeWireframe_def del: getObjectByName.simps isMesh.simps)
      then show ?thesis
        using \<open>isMesh ?obj\<close> i by (simp add: take_map drop_map del: getObjectByName.simps isMesh.simps)
    next
      case False
      then have r: "remove (getObjectByName ''wireframe'' ?obj) x = x" for x
        by (intro remove_not_child) auto
      have "traverse removeWireframe ?obj = Some (Object3D nm k tc (map unwireframed cs))"
        using \<open>isMesh ?obj\<close> r
        by (intro traverse_step [OF _ sub [OF subset_refl]])
           (simp add: removeWireframe_def del: getObjectByName.simps isMesh.simps)
      then show ?thesis
        using \<open>isMesh ?obj\<close> r by (simp del: getObjectByName.simps isMesh.simps)
    qed
  qed
qed

lemma traverse_object_setMaterial:
  "traverse_object (setMaterial t opac) m =
     (case object m of None \<Rightarrow> Inl (TypeError, m)
      | Some obj \<Rightarrow> Inr (m\<lparr>object := Some (withMaterial t opac obj)\<rparr>))"
  by (simp add: traverse_object_def traverse_setMaterial split: option.splits)

lemma traverse_object_addWireframe:
  "traverse_object addWireframe m =
     (case object m of None \<Rightarrow> Inl (TypeError, m)
      | Some obj \<Rightarrow> Inr (m\<lparr>object := Some (wireframed obj)\<rparr>))"
  by (simp add: traverse_object_def traverse_addWireframe split: option.splits)

lemma traverse_object_removeWireframe:
  "traverse_object removeWireframe m =
     (case object m of None \<Rightarrow> Inl (TypeError, m)
      | Some obj \<Rightarrow> Inr (m\<lparr>object := Some (unwireframed obj)\<rparr>))"
  by (simp add: traverse_object_def traverse_removeWireframe split: option.splits)

lemmas traverse_object_simps =
  traverse_object_setMaterial traverse_object_addWireframe traverse_object_removeWireframe

lemmas update_defs =
  updateModel_def updateRotation_def updateModo_def updateAlambre_def updateTransperante_def
  updateSombreado_def

lemma updateAlambre_Inr:
  "updateAlambre m = Inr m1 \<Longrightarrow>
     modo m1 = modo m \<and> viewChange m1 = viewChange m \<and> vista m1 = vista m \<and>
     modoOldState m1 = (modoOldState m)\<lparr>alambre := alambre (modo m)\<rparr>"
  by (auto simp add: updateAlambre_def traverse_object_simps split: option.splits if_splits)

lemma updateTransperante_Inr:
  "updateTransperante m = Inr m1 \<Longrightarrow>
     modo m1 = modo m \<and> viewChange m1 = viewChange m \<and> vista m1 = vista m \<and>
     modoOldState m1 =
       (if sombreado (modo m) then (modoOldState m)\<lparr>transperante := transperante (modo m)\<rparr>
        else modoOldState m)"
  by (auto simp add: updateTransperante_def traverse_object_simps split: option.splits if_splits)

lemma updateSombreado_Inr:
  "updateSombreado m = Inr m1 \<Longrightarrow>
     modo m1 = modo m \<and> viewChange m1 = viewChange m \<and> vista m1 = vista m \<and>
     modoOldState m1 =
       (if sombreado (modo m) = sombreado (modoOldState m) then modoOldState m
        else if sombreado (modo m) then (modoOldState m)\<lparr>sombreado := True\<rparr>
        else (modoOldState m)\<lparr>transperante := False, sombreado := False\<rparr>)"
  by (auto simp add: updateSombreado_def traverse_object_simps split: option.splits if_splits)

lemma updateModo_Inr:
  assumes "updateModo m = Inr m'"
  shows "modo m' = modo m \<and> viewChange m' = viewChange m \<and> vista m' = vista m \<and> settled m'"
proof -
  from assms obtain m1 m2 where
    1: "updateAlambre m = Inr m1" and 2: "updateTransperante m1 = Inr m2"
    and 3: "updateSombreado m2 = Inr m'"
    by (auto simp add: updateModo_def split: sum.splits)
  note a = updateAlambre_Inr [OF 1] and b = updateTransperante_Inr [OF 2]
    and c = updateSombreado_Inr [OF 3]
  show ?thesis
    using a b c by (simp add: settled_def)
qed

lemma updateAlambre_idle:
  "alambre (modo m) = alambre (modoOldState m) \<Longrightarrow> updateAlambre m = Inr m"
  unfolding updateAlambre_def by simp

lemma updateTransperante_idle:
  "transperante (modo m) = transperante (modoOldState m) \<or> \<not> sombreado (modo m) \<Longrightarrow>
   updateTransperante m = Inr m"
  unfolding updateTransperante_def by auto

lemma updateSombreado_idle:
  "sombreado (modo m) = sombreado (modoOldState m) \<Longrightarrow> updateSombreado m = Inr m"
  unfolding updateSombreado_def by simp

lemma updateModo_settled:
  assumes "settled m"
  shows "updateModo m = Inr m"
proof -
  from assms have "updateAlambre m = Inr m" "updateTransperante m = Inr m" "updateSombreado m = Inr m"
    unfolding settled_def
    by (auto intro: updateAlambre_idle updateTransperante_idle updateSombreado_idle)
  then show ?thesis by (simp add: updateModo_def)
qed

lemma replay_append: "replay la ro (xs @ ys) q = replay la ro ys (replay la ro xs q)"
  by (induction la ro xs q rule: replay.induct) simp_all

lemma updateRotation_Inr:
  "updateRotation c m = Inr m1 \<Longrightarrow>
     modo m1 = modo m \<and> modoOldState m1 = modoOldState m \<and> vista m1 = vista m \<and> \<not> viewChange m1"
  by (auto simp add: updateRotation_def split: option.splits if_splits)

lemma updateRotation_clean: "\<not> viewChange m \<Longrightarrow> updateRotation c m = Inr m"
  by (simp add: updateRotation_def)

lemmas setter_defs =
  set_object_def set_vista_def set_alambre_def set_transparente_def set_sombreado_def

lemma calls_withMaterial [simp]: "calls (withMaterial t opac obj) = calls obj"
  by (cases obj) simp

lemma calls_wireframed [simp]: "calls (wireframed obj) = calls obj"
  by (cases obj) simp

lemma calls_remove [simp]: "calls (remove r obj) = calls obj"
  by (cases "(r, obj)" rule: remove.cases) simp_all

lemma calls_unwireframed [simp]: "calls (unwireframed obj) = calls obj"
  by (cases obj) simp

lemma updateAlambre_Inl: "updateAlambre m = Inl (e, m') \<Longrightarrow> m' = m \<and> object m = None"
  by (auto simp add: updateAlambre_def traverse_object_simps split: option.splits if_splits)

lemma updateTransperante_Inl: "updateTransperante m = Inl (e, m') \<Longrightarrow> m' = m \<and> object m = None"
  by (auto simp add: updateTransperante_def traverse_object_simps split: option.splits if_splits)

lemma updateSombreado_Inl: "updateSombreado m = Inl (e, m') \<Longrightarrow> m' = m \<and> object m = None"
  by (auto simp add: updateSombreado_def traverse_object_simps split: option.splits if_splits)

lemma updateRotation_Inl: "updateRotation c m = Inl (e, m') \<Longrightarrow> m' = m"
  by (auto simp add: updateRotation_def split: option.splits if_splits)

lemma updateAlambre_calls:
  "updateAlambre m = Inr m' \<Longrightarrow> map_option calls (object m') = map_option calls (object m)"
  by (auto simp add: updateAlambre_def traverse_object_simps split: option.splits if_splits)

lemma updateTransperante_calls:
  "updateTransperante m = Inr m' \<Longrightarrow> map_option calls (object m') = map_option calls (object m)"
  by (auto simp add: updateTransperante_def traverse_object_simps split: option.splits if_splits)

lemma updateSombreado_calls:
  "updateSombreado m = Inr m' \<Longrightarrow> map_option calls (object m') = map_option calls (object m)"
  by (auto simp add: updateSombreado_def traverse_object_simps split: option.splits if_splits)

lemma updateAlambre_None: "updateAlambre m = Inr m' \<Longrightarrow> object m = None \<Longrightarrow> m' = m"
  by (auto simp add: updateAlambre_def traverse_object_simps split: option.splits if_splits)

lemma updateTransperante_None: "updateTransperante m = Inr m' \<Longrightarrow> object m = None \<Longrightarrow> m' = m"
  by (auto simp add: updateTransperante_def traverse_object_simps split: option.splits if_splits)

lemma updateModo_Inl:
  assumes "updateModo m = Inl (e, m')"
  shows "m' = m \<and> object m = None"
proof (cases "updateAlambre m")
  case (Inl x)
  with assms show ?thesis
    by (cases x) (auto simp add: updateModo_def dest: updateAlambre_Inl)
next
  case 1: (Inr m1)
  show ?thesis
  proof (cases "updateTransperante m1")
    case (Inl x)
    with 1 assms have "updateTransperante m1 = Inl (e, m')"
      by (simp add: updateModo_def)
    then have "m' = m1" "object m1 = None"
      by (auto dest: updateTransperante_Inl)
    moreover from 1 \<open>object m1 = None\<close> have "object m = None"
      by (auto simp add: updateAlambre_def traverse_object_simps split: option.splits if_splits)
    ultimately show ?thesis
      using updateAlambre_None [OF 1] by simp
  next
    case 2: (Inr m2)
    with 1 assms have "updateSombreado m2 = Inl (e, m')"
      by (simp add: updateModo_def)
    then have "m' = m2" "object m2 = None"
      by (auto dest: updateSombreado_Inl)
    moreover from 2 \<open>object m2 = None\<close> have "object m1 = None"
      by (auto simp add: updateTransperante_def traverse_object_simps split: option.splits if_splits)
    moreover from 1 \<open>object m1 = None\<close> have "object m = None"
      by (auto simp add: updateAlambre_def traverse_object_simps split: option.splits if_splits)
    ultimately show ?thesis
      using updateAlambre_None [OF 1] updateTransperante_None [OF 2] by simp
  qed
qed

lemma updateModo_calls:
  assumes "updateModo m = Inr m'"
  shows "map_option calls (object m') = map_option calls (object m)"
proof -
  from assms obtain m1 m2 where
    1: "updateAlambre m = Inr m1" and 2: "updateTransperante m1 = Inr m2"
    and 3: "updateSombreado m2 = Inr m'"
    by (auto simp add: updateModo_def split: sum.splits)
  show ?thesis
    using updateAlambre_calls [OF 1] updateTransperante_calls [OF 2] updateSombreado_calls [OF 3]
    by simp
qed


lemma calls_lookAt [simp]: "calls (lookAt v obj) = calls obj @ [LookAt v]"
  by (cases obj) simp

lemma calls_rotateOnAxis [simp]:
  "calls (rotateOnAxis axis angle obj) = calls obj @ [RotateOnAxis axis angle]"
  by (cases obj) simp

lemma updateRotation_rotated:
  "updateRotation c m = Inr m1 \<Longrightarrow> rotated m m1 = viewChange m"
  by (auto simp add: updateRotation_def rotated_def split: option.splits if_splits)

lemma updateRotation_None: "updateRotation c m = Inr m1 \<Longrightarrow> object m1 = None \<Longrightarrow> m1 = m"
  by (auto simp add: updateRotation_def split: option.splits if_splits)

lemma updateModel_Inl:
  assumes "updateModel c m = Inl (e, m')"
  shows "m' = m"
proof (cases "updateRotation c m")
  case (Inl x)
  with assms show ?thesis
    by (cases x) (auto simp add: updateModel_def dest: updateRotation_Inl)
next
  case (Inr m1)
  with assms have "updateModo m1 = Inl (e, m')"
    by (simp add: updateModel_def)
  then have "m' = m1" "object m1 = None"
    using updateModo_Inl by blast+
  with updateRotation_None [OF Inr] show ?thesis by simp
qed

lemma updateModel_Inr:
  assumes "updateModel c m = Inr m'"
  shows "\<not> viewChange m' \<and> rotated m m' = viewChange m"
proof -
  from assms obtain m1 where 1: "updateRotation c m = Inr m1" and 2: "updateModo m1 = Inr m'"
    by (auto simp add: updateModel_def split: sum.splits)
  from updateModo_calls [OF 2] have "rotated m m' = rotated m m1"
    by (simp add: rotated_def)
  with updateRotation_rotated [OF 1] updateRotation_Inr [OF 1] updateModo_Inr [OF 2]
  show ?thesis by simp
qed

lemma viewChange_exec: "viewChange (exec c m) = pending (viewChange m) c m"
proof (cases c)
  case (UpdateModel camera)
  show ?thesis
  proof (cases "updateModel camera m")
    case (Inl x)
    obtain e m' where x: "x = (e, m')" by (cases x)
    with Inl updateModel_Inl [of camera m e m'] have "state_of (updateModel camera m) = m"
      by (simp add: state_of_def)
    with UpdateModel show ?thesis by (simp add: rotated_def)
  next
    case (Inr m')
    with UpdateModel updateModel_Inr [OF Inr] show ?thesis
      by (simp add: state_of_def)
  qed
qed (simp_all add: setter_defs)

lemma viewChange_run: "viewChange (run cs m) = unreconciled cs m (viewChange m)"
  by (induction cs arbitrary: m) (simp_all add: viewChange_exec)

lemma bordes_with_bordes [simp]:
  "sombreado (modo (with_bordes b b' m)) = sombreado (modo m)"
  "alambre (modo (with_bordes b b' m)) = alambre (modo m)"
  "transperante (modo (with_bordes b b' m)) = transperante (modo m)"
  "sombreado (modoOldState (with_bordes b b' m)) = sombreado (modoOldState m)"
  "alambre (modoOldState (with_bordes b b' m)) = alambre (modoOldState m)"
  "transperante (modoOldState (with_bordes b b' m)) = transperante (modoOldState m)"
  "object (with_bordes b b' m) = object m"
  "viewChange (with_bordes b b' m) = viewChange m"
  "vista (with_bordes b b' m) = vista m"
  by (simp_all add: with_bordes_def)

lemma traverse_object_with_bordes:
  "traverse_object cb (with_bordes b b' m) = map_outcome (with_bordes b b') (traverse_object cb m)"
  by (simp add: traverse_object_def map_outcome_def with_bordes_def split: option.splits)

lemma updateAlambre_with_bordes:
  "updateAlambre (with_bordes b b' m) = map_outcome (with_bordes b b') (updateAlambre m)"
  unfolding updateAlambre_def
  by (auto simp add: traverse_object_simps map_outcome_def split: option.splits)
     (simp_all add: with_bordes_def)

lemma updateTransperante_with_bordes:
  "updateTransperante (with_bordes b b' m) = map_outcome (with_bordes b b') (updateTransperante m)"
  unfolding updateTransperante_def
  by (auto simp add: traverse_object_simps map_outcome_def split: option.splits)
     (simp_all add: with_bordes_def)

lemma updateSombreado_with_bordes:
  "updateSombreado (with_bordes b b' m) = map_outcome (with_bordes b b') (updateSombreado m)"
  unfolding updateSombreado_def
  by (auto simp add: traverse_object_simps map_outcome_def split: option.splits)
     (simp_all add: with_bordes_def)

lemma updateRotation_with_bordes:
  "updateRotation c (with_bordes b b' m) = map_outcome (with_bordes b b') (updateRotation c m)"
  unfolding updateRotation_def
  by (auto simp add: map_outcome_def split: option.splits)
     (simp_all add: with_bordes_def)

lemma updateModel_with_bordes:
  "updateModel c (with_bordes b b' m) = map_outcome (with_bordes b b') (updateModel c m)"
  by (simp add: updateModel_def updateModo_def updateRotation_with_bordes updateAlambre_with_bordes
      updateTransperante_with_bordes updateSombreado_with_bordes map_outcome_def
      split: sum.splits prod.splits)


lemma updateModel_bordes:
  assumes "updateModel c m = Inr m'"
  shows "bordes (modo m') = bordes (modo m) \<and> bordes (modoOldState m') = bordes (modoOldState m)"
proof -
  from assms obtain m1 m2 m3 where
    0: "updateRotation c m = Inr m1" and 1: "updateAlambre m1 = Inr m2"
    and 2: "updateTransperante m2 = Inr m3" and 3: "updateSombreado m3 = Inr m'"
    by (auto simp add: updateModel_def updateModo_def split: sum.splits)
  show ?thesis
    using updateRotation_Inr [OF 0] updateAlambre_Inr [OF 1] updateTransperante_Inr [OF 2]
      updateSombreado_Inr [OF 3]
    by simp
qed

lemma exec_bordes:
  "bordes (modo (exec c m)) = bordes (modo m) \<and>
   bordes (modoOldState (exec c m)) = bordes (modoOldState m)"
proof (cases c)
  case (UpdateModel camera)
  show ?thesis
  proof (cases "updateModel camera m")
    case (Inl x)
    obtain e m' where x: "x = (e, m')" by (cases x)
    with Inl updateModel_Inl [of camera m e m'] have "state_of (updateModel camera m) = m"
      by (simp add: state_of_def)
    with UpdateModel show ?thesis by simp
  next
    case (Inr m')
    with UpdateModel updateModel_bordes [OF Inr] show ?thesis
      by (simp add: state_of_def)
  qed
qed (simp_all add: setter_defs)

lemma run_bordes:
  "bordes (modo (run cs m)) = bordes (modo m) \<and>
   bordes (modoOldState (run cs m)) = bordes (modoOldState m)"
  by (induction cs arbitrary: m) (simp_all add: exec_bordes)

lemma sin_half_pos: "0 < sin (1 / 2 :: real)"
  using pi_ge_two by (intro sin_gt_zero) simp_all

section \<open>The claims\<close>

text \<open>
  C1. Shading is disabled and reconciled, then \<open>transparente = true\<close> and
  \<open>sombreado = true\<close> are set, and \<open>updateModel\<close> is called once more. The pass fires
  the transparency transition (its snapshot ends up true), but the shading block that
  follows overwrites the material: the mesh ends up opaque with opacity 1, not
  transparent with opacity 0.4.
\<close>

theorem reenabled_shading_overwrites_transparency:
  "run [Set_sombreado False, UpdateModel (Some camera0),
        Set_transparente True, Set_sombreado True, UpdateModel (Some camera0)]
       (set_object (Some cube) Model_constructor)
   = \<lparr> object = Some (Object3D ''Cube'' (Mesh (BufferGeometry 0) (Material False 1)) [] []),
       vista = FRONTAL,
       modo = \<lparr> sombreado = True, alambre = False, transperante = True, bordes = False \<rparr>,
       modoOldState = \<lparr> sombreado = True, alambre = False, transperante = True, bordes = False \<rparr>,
       viewChange = False \<rparr>"
  by (simp add: update_defs traverse_object_simps setter_defs Model_constructor_def cube_def
      state_of_def)

text \<open>
  C2. The rotation step hands the stored vista components to \<open>rotateOnAxis\<close> as they
  are: for the vista \<open>ISOMETRICA\<close>, \<open>(30, 30, 0)\<close> in degrees, the angles applied are
  \<open>30\<close>, \<open>30\<close> and \<open>0\<close>, and \<open>30\<close> is not \<open>_degreesToRadians(30)\<close>. The helper
  \<open>_degreesToRadians\<close> is never called.
\<close>

theorem rotation_uses_raw_degrees:
  "state_of (updateRotation (Some camera0) (set_vista ISOMETRICA (set_object (Some cube) Model_constructor)))
   = (set_object (Some (Object3D ''Cube'' (Mesh (BufferGeometry 0) (Material False 1))
         [LookAt (Vector3 100 100 100), RotateOnAxis (Vector3 1 0 0) 30,
          RotateOnAxis (Vector3 0 1 0) 30, RotateOnAxis (Vector3 0 0 1) 0] [])) Model_constructor)
       \<lparr>vista := ISOMETRICA\<rparr>
   \<and> degreesToRadians 30 \<noteq> 30"
proof -
  have "pi \<noteq> 180" using pi_less_4 by simp
  then have "degreesToRadians 30 \<noteq> 30" by (simp add: degreesToRadians_def)
  then show ?thesis
    by (simp add: updateRotation_def setter_defs Model_constructor_def cube_def camera0_def
        ISOMETRICA_def state_of_def)
qed

text \<open>
  C3. After an \<open>updateModel\<close> call the snapshots can disagree with what is on the scene
  graph. On the mesh with a mesh child, after wireframe on and off, the wireframe flag and
  its snapshot are false and the parent mesh still has its wireframe child. On the single
  mesh, with transparency on, after shading off and on again, the flags and snapshots of
  transparency and shading are all true and the mesh material is opaque with opacity 1,
  not transparent with opacity 0.4.
\<close>

theorem snapshots_disagree_with_scene:
  "run [Set_alambre True, UpdateModel (Some camera0), Set_alambre False, UpdateModel (Some camera0)]
     (loaded nested) =
     \<lparr> object = Some (Object3D ''Body'' (Mesh (BufferGeometry 0) (Material False 1)) []
                        [Object3D ''Wheel'' (Mesh (BufferGeometry 1) (Material False 1)) [] [],
                         wireframe (BufferGeometry 0)]),
       vista = FRONTAL,
       modo = \<lparr> sombreado = True, alambre = False, transperante = False, bordes = False \<rparr>,
       modoOldState = \<lparr> sombreado = True, alambre = False, transperante = False, bordes = False \<rparr>,
       viewChange = False \<rparr> \<and>
   run [Set_transparente True, UpdateModel (Some camera0), Set_sombreado False,
        UpdateModel (Some camera0), Set_sombreado True, UpdateModel (Some camera0)]
     (loaded cube) =
     \<lparr> object = Some (Object3D ''Cube'' (Mesh (BufferGeometry 0) (Material False 1)) [] []),
       vista = FRONTAL,
       modo = \<lparr> sombreado = True, alambre = False, transperante = True, bordes = False \<rparr>,
       modoOldState = \<lparr> sombreado = True, alambre = False, transperante = True, bordes = False \<rparr>,
       viewChange = False \<rparr>"
  by (simp add: update_defs traverse_object_simps setter_defs Model_constructor_def nested_def
      cube_def loaded_def state_of_def wireframe_def)

text \<open>
  C4. When a call of \<open>updateModel\<close> has returned, a second call with no setter call in
  between (with the same or any other camera) returns the very same model: no further
  transform call, no second wireframe child, no material written. A call that throws
  leaves the model as it was, so calling twice with the same camera always leaves what
  calling once does.
\<close>

theorem updateModel_idempotent:
  "(updateModel c m = Inr m' \<longrightarrow> updateModel c' m' = Inr m') \<and>
   state_of (updateModel c (state_of (updateModel c m))) = state_of (updateModel c m)"
proof -
  have twice: "updateModel d n' = Inr n'" if "updateModel c n = Inr n'" for d n n'
  proof -
    from that obtain n1 where 1: "updateRotation c n = Inr n1" and 2: "updateModo n1 = Inr n'"
      by (auto simp add: updateModel_def split: sum.splits)
    from updateRotation_Inr [OF 1] updateModo_Inr [OF 2]
    have "\<not> viewChange n'" and "settled n'" by simp_all
    then show ?thesis
      by (simp add: updateModel_def updateRotation_clean updateModo_settled)
  qed
  have "state_of (updateModel c (state_of (updateModel c m))) = state_of (updateModel c m)"
  proof (cases "updateModel c m")
    case (Inl x)
    obtain e n where x: "x = (e, n)" by (cases x)
    with Inl updateModel_Inl [of c m e n] have "state_of (updateModel c m) = m"
      by (simp add: state_of_def)
    then show ?thesis by simp
  next
    case (Inr n)
    with twice [OF Inr, of c] show ?thesis by (simp add: state_of_def)
  qed
  with twice [of m m' c'] show ?thesis by blast
qed

theorem updateModel_idempotent_witness:
  "updateModel (Some camera0)
     (set_alambre True (set_vista ISOMETRICA (set_object (Some cube) Model_constructor))) =
   Inr \<lparr> object = Some (Object3D ''Cube'' (Mesh (BufferGeometry 0) (Material False 1))
             [LookAt (Vector3 100 100 100), RotateOnAxis (Vector3 1 0 0) 30,
              RotateOnAxis (Vector3 0 1 0) 30, RotateOnAxis (Vector3 0 0 1) 0]
             [wireframe (BufferGeometry 0)]),
         vista = ISOMETRICA,
         modo = \<lparr> sombreado = True, alambre = True, transperante = False, bordes = False \<rparr>,
         modoOldState = \<lparr> sombreado = True, alambre = True, transperante = False, bordes = False \<rparr>,
         viewChange = False \<rparr> \<and>
   updateModel None
     \<lparr> object = Some (Object3D ''Cube'' (Mesh (BufferGeometry 0) (Material False 1))
             [LookAt (Vector3 100 100 100), RotateOnAxis (Vector3 1 0 0) 30,
              RotateOnAxis (Vector3 0 1 0) 30, RotateOnAxis (Vector3 0 0 1) 0]
             [wireframe (BufferGeometry 0)]),
         vista = ISOMETRICA,
         modo = \<lparr> sombreado = True, alambre = True, transperante = False, bordes = False \<rparr>,
         modoOldState = \<lparr> sombreado = True, alambre = True, transperante = False, bordes = False \<rparr>,
         viewChange = False \<rparr> =
   Inr \<lparr> object = Some (Object3D ''Cube'' (Mesh (BufferGeometry 0) (Material False 1))
             [LookAt (Vector3 100 100 100), RotateOnAxis (Vector3 1 0 0) 30,
              RotateOnAxis (Vector3 0 1 0) 30, RotateOnAxis (Vector3 0 0 1) 0]
             [wireframe (BufferGeometry 0)]),
         vista = ISOMETRICA,
         modo = \<lparr> sombreado = True, alambre = True, transperante = False, bordes = False \<rparr>,
         modoOldState = \<lparr> sombreado = True, alambre = True, transperante = False, bordes = False \<rparr>,
         viewChange = False \<rparr>"
  (is "?A = Inr ?m' \<and> ?B = Inr ?m'")
proof -
  have h: "?A = Inr ?m'"
    by (simp add: update_defs traverse_object_simps setter_defs Model_constructor_def cube_def
        camera0_def ISOMETRICA_def)
  from updateModel_idempotent [of "Some camera0" _ ?m' None] h show ?thesis by simp
qed

text \<open>
  C5. Whenever the shading flag is currently false, the transparency block of
  \<open>_updateModo\<close> does nothing at all, also when the transparency flag differs from its
  snapshot: it returns the model unchanged, so no material field and no snapshot is
  written, and the whole pass is the wireframe block followed by the shading block.
\<close>

theorem transparency_suppressed_without_shading:
  "\<not> sombreado (modo m) \<Longrightarrow>
     updateTransperante m = Inr m \<and>
     updateModo m = (case updateAlambre m of Inl e \<Rightarrow> Inl e | Inr m1 \<Rightarrow> updateSombreado m1)"
proof -
  assume off: "\<not> sombreado (modo m)"
  then have 1: "updateTransperante m = Inr m"
    by (simp add: updateTransperante_idle)
  have 2: "updateModo m = (case updateAlambre m of Inl e \<Rightarrow> Inl e | Inr m1 \<Rightarrow> updateSombreado m1)"
  proof (cases "updateAlambre m")
    case (Inl e)
    then show ?thesis by (simp add: updateModo_def)
  next
    case (Inr m1)
    with off have "\<not> sombreado (modo m1)"
      by (simp add: updateAlambre_Inr)
    then have "updateTransperante m1 = Inr m1"
      by (simp add: updateTransperante_idle)
    with Inr show ?thesis by (simp add: updateModo_def)
  qed
  from 1 2 show ?thesis ..
qed

theorem transparency_suppressed_without_shading_witness:
  "\<not> sombreado (modo (run [Set_sombreado False, UpdateModel (Some camera0), Set_transparente True]
                         (set_object (Some cube) Model_constructor))) \<and>
   transperante (modo (run [Set_sombreado False, UpdateModel (Some camera0), Set_transparente True]
                         (set_object (Some cube) Model_constructor))) \<noteq>
   transperante (modoOldState (run [Set_sombreado False, UpdateModel (Some camera0), Set_transparente True]
                         (set_object (Some cube) Model_constructor))) \<and>
   updateTransperante (run [Set_sombreado False, UpdateModel (Some camera0), Set_transparente True]
                         (set_object (Some cube) Model_constructor)) =
     Inr (run [Set_sombreado False, UpdateModel (Some camera0), Set_transparente True]
            (set_object (Some cube) Model_constructor))"
proof -
  let ?m = "run [Set_sombreado False, UpdateModel (Some camera0), Set_transparente True]
              (set_object (Some cube) Model_constructor)"
  have m: "?m = \<lparr> object = Some (Object3D ''Cube'' (Mesh (BufferGeometry 0) (Material True 0)) [] []),
       vista = FRONTAL,
       modo = \<lparr> sombreado = False, alambre = False, transperante = True, bordes = False \<rparr>,
       modoOldState = \<lparr> sombreado = False, alambre = False, transperante = False, bordes = False \<rparr>,
       viewChange = False \<rparr>"
    by (simp add: update_defs traverse_object_simps setter_defs Model_constructor_def cube_def
        state_of_def)
  have h: "\<not> sombreado (modo ?m)" by (simp only: m) simp
  have d: "transperante (modo ?m) \<noteq> transperante (modoOldState ?m)" by (simp only: m) simp
  from transparency_suppressed_without_shading [OF h] h d show ?thesis by blast
qed

text \<open>
  C6. The rotation step makes four transform calls in this order: \<open>lookAt\<close> the camera's
  position, then \<open>rotateOnAxis\<close> about \<open>(1,0,0)\<close>, \<open>(0,1,0)\<close> and \<open>(0,0,1)\<close> with the
  vista's components. The engine takes the axis of \<open>rotateOnAxis\<close> in object space, so
  the rotations are about the object's own axes, not about the world's. For an object at
  the origin and a camera on the positive Z axis, where \<open>lookAt\<close> leaves the identity
  orientation, and the vista \<open>(1, 1, 0)\<close>: the orientation that the calls produce is not
  the one that rotating about the world X axis, then world Y, then world Z produces; it
  is the one that rotating about world Z, then world Y, then world X produces, the
  reverse order.
\<close>

theorem rotation_about_object_axes:
  "object (state_of (updateRotation (Some (Camera (Vector3 0 0 100)))
             (set_vista (Vector3 1 1 0) (loaded cube)))) =
     Some (Object3D ''Cube'' (Mesh (BufferGeometry 0) (Material False 1))
            [LookAt (Vector3 0 0 100), RotateOnAxis (Vector3 1 0 0) 1,
             RotateOnAxis (Vector3 0 1 0) 1, RotateOnAxis (Vector3 0 0 1) 0] []) \<and>
   replay (\<lambda>v q. identity) rotateOnAxis_quaternion
     [LookAt (Vector3 0 0 100), RotateOnAxis (Vector3 1 0 0) 1,
      RotateOnAxis (Vector3 0 1 0) 1, RotateOnAxis (Vector3 0 0 1) 0] identity \<noteq>
   replay (\<lambda>v q. identity) rotateOnWorldAxis_quaternion
     [LookAt (Vector3 0 0 100), RotateOnAxis (Vector3 1 0 0) 1,
      RotateOnAxis (Vector3 0 1 0) 1, RotateOnAxis (Vector3 0 0 1) 0] identity \<and>
   replay (\<lambda>v q. identity) rotateOnAxis_quaternion
     [LookAt (Vector3 0 0 100), RotateOnAxis (Vector3 1 0 0) 1,
      RotateOnAxis (Vector3 0 1 0) 1, RotateOnAxis (Vector3 0 0 1) 0] identity =
   replay (\<lambda>v q. identity) rotateOnWorldAxis_quaternion
     [LookAt (Vector3 0 0 100), RotateOnAxis (Vector3 0 0 1) 0,
      RotateOnAxis (Vector3 0 1 0) 1, RotateOnAxis (Vector3 1 0 0) 1] identity"
proof -
  have s: "sin (1 / 2 :: real) \<noteq> 0" using sin_half_pos by simp
  have 1: "object (state_of (updateRotation (Some (Camera (Vector3 0 0 100)))
             (set_vista (Vector3 1 1 0) (loaded cube)))) =
     Some (Object3D ''Cube'' (Mesh (BufferGeometry 0) (Material False 1))
            [LookAt (Vector3 0 0 100), RotateOnAxis (Vector3 1 0 0) 1,
             RotateOnAxis (Vector3 0 1 0) 1, RotateOnAxis (Vector3 0 0 1) 0] [])"
    by (simp add: updateRotation_def setter_defs loaded_def Model_constructor_def cube_def
        state_of_def)
  have 2: "replay (\<lambda>v q. identity) rotateOnAxis_quaternion
     [LookAt (Vector3 0 0 100), RotateOnAxis (Vector3 1 0 0) 1,
      RotateOnAxis (Vector3 0 1 0) 1, RotateOnAxis (Vector3 0 0 1) 0] identity =
     Quaternion (sin (1 / 2) * cos (1 / 2)) (cos (1 / 2) * sin (1 / 2))
       (sin (1 / 2) * sin (1 / 2)) (cos (1 / 2) * cos (1 / 2))"
    by (simp add: rotateOnAxis_quaternion_def setFromAxisAngle_def identity_def)
  have 3: "replay (\<lambda>v q. identity) rotateOnWorldAxis_quaternion
     [LookAt (Vector3 0 0 100), RotateOnAxis (Vector3 1 0 0) 1,
      RotateOnAxis (Vector3 0 1 0) 1, RotateOnAxis (Vector3 0 0 1) 0] identity =
     Quaternion (cos (1 / 2) * sin (1 / 2)) (sin (1 / 2) * cos (1 / 2))
       (- (sin (1 / 2) * sin (1 / 2))) (cos (1 / 2) * cos (1 / 2))"
    by (simp add: rotateOnWorldAxis_quaternion_def setFromAxisAngle_def identity_def)
  have 4: "replay (\<lambda>v q. identity) rotateOnWorldAxis_quaternion
     [LookAt (Vector3 0 0 100), RotateOnAxis (Vector3 0 0 1) 0,
      RotateOnAxis (Vector3 0 1 0) 1, RotateOnAxis (Vector3 1 0 0) 1] identity =
     Quaternion (sin (1 / 2) * cos (1 / 2)) (cos (1 / 2) * sin (1 / 2))
       (sin (1 / 2) * sin (1 / 2)) (cos (1 / 2) * cos (1 / 2))"
    by (simp add: rotateOnWorldAxis_quaternion_def setFromAxisAngle_def identity_def)
  from s show ?thesis
    by (simp only: 1 2 3 4) simp
qed

text \<open>
  C7. The dirty flag is true exactly when a vista write is pending: after any sequence of
  calls on a new model, \<open>_viewChange\<close> equals the bookkeeping that the vista setter sets
  and that only a pass which rotates the object clears. The vista setter sets the flag; a
  pass on a model with an object and a camera, with the flag set, returns with the flag
  clear; the rotation step with the flag unset returns the model unchanged.
\<close>

theorem viewChange_iff_pending:
  "viewChange (run cs Model_constructor) = unreconciled cs Model_constructor False \<and>
   viewChange (set_vista v m) \<and>
   (viewChange m \<and> object m \<noteq> None \<longrightarrow>
      (\<exists>m'. updateModel (Some cam) m = Inr m' \<and> \<not> viewChange m')) \<and>
   (\<not> viewChange m \<longrightarrow> updateRotation camera m = Inr m)"
proof -
  have 1: "viewChange (run cs Model_constructor) = unreconciled cs Model_constructor False"
    using viewChange_run [of cs Model_constructor] by (simp add: Model_constructor_def)
  have 2: "viewChange (set_vista v m)" by (simp add: set_vista_def)
  have 3: "\<exists>m'. updateModel (Some cam) m = Inr m' \<and> \<not> viewChange m'"
    if "viewChange m" "object m \<noteq> None"
  proof (cases "updateModel (Some cam) m")
    case (Inl x)
    obtain e m' where x: "x = (e, m')" by (cases x)
    from that obtain m1 where 1: "updateRotation (Some cam) m = Inr m1" and "object m1 \<noteq> None"
      by (auto simp add: updateRotation_def)
    with Inl x have "updateModo m1 = Inl (e, m')" by (simp add: updateModel_def)
    then have "object m1 = None" by (rule updateModo_Inl [THEN conjunct2])
    with \<open>object m1 \<noteq> None\<close> show ?thesis by simp
  next
    case (Inr m')
    with updateModel_Inr [OF Inr] show ?thesis by simp
  qed
  have 4: "updateRotation camera m = Inr m" if "\<not> viewChange m"
    using that by (rule updateRotation_clean)
  from 1 2 3 4 show ?thesis by blast
qed

theorem viewChange_iff_pending_witness:
  "viewChange (run [Set_vista ISOMETRICA, UpdateModel (Some camera0), Set_vista ARRIBA] Model_constructor) \<and>
   unreconciled [Set_vista ISOMETRICA, UpdateModel (Some camera0), Set_vista ARRIBA] Model_constructor False \<and>
   viewChange (set_vista ISOMETRICA (set_object (Some cube) Model_constructor)) \<and>
   object (set_vista ISOMETRICA (set_object (Some cube) Model_constructor)) \<noteq> None \<and>
   (\<exists>m'. updateModel (Some camera0) (set_vista ISOMETRICA (set_object (Some cube) Model_constructor)) = Inr m' \<and>
      \<not> viewChange m') \<and>
   \<not> viewChange Model_constructor \<and>
   updateRotation None Model_constructor = Inr Model_constructor"
proof -
  let ?cs = "[Set_vista ISOMETRICA, UpdateModel (Some camera0), Set_vista ARRIBA]"
  let ?m = "set_vista ISOMETRICA (set_object (Some cube) Model_constructor)"
  have h1: "viewChange ?m \<and> object ?m \<noteq> None" by (simp add: setter_defs)
  have h2: "\<not> viewChange Model_constructor" by (simp add: Model_constructor_def)
  have u: "unreconciled ?cs Model_constructor False"
    by (simp add: update_defs setter_defs Model_constructor_def state_of_def rotated_def)
  from viewChange_iff_pending [of ?cs ISOMETRICA ?m camera0 None]
    viewChange_iff_pending [of ?cs ISOMETRICA Model_constructor camera0 None] h1 h2 u
  show ?thesis by blast
qed

text \<open>
  C8. Calling \<open>updateModel\<close> on a freshly constructed model, before any loaded object
  has been assigned, throws nothing and changes nothing: whatever the camera is (even
  \<open>null\<close>), the call returns and the model, with its empty object, is as it was.
\<close>

theorem updateModel_fresh_noop: "updateModel camera Model_constructor = Inr Model_constructor"
  by (simp add: update_defs Model_constructor_def)

text \<open>
  C9. The off transition does not always remove what the on transition added. On the mesh
  with a mesh child, \<open>getObjectByName\<close> on the parent finds the child's wireframe first,
  which is no child of the parent, so after on and off the parent keeps its wireframe;
  a second on then gives the parent a second one. On the mesh that is itself named
  \<open>wireframe\<close>, \<open>getObjectByName\<close> finds the mesh itself, and its wireframe child stays.
\<close>

theorem wireframe_off_leaves_overlay:
  "object (run [Set_alambre True, UpdateModel (Some camera0), Set_alambre False, UpdateModel (Some camera0)]
             (loaded nested)) =
     Some (Object3D ''Body'' (Mesh (BufferGeometry 0) (Material False 1)) []
            [Object3D ''Wheel'' (Mesh (BufferGeometry 1) (Material False 1)) [] [],
             wireframe (BufferGeometry 0)]) \<and>
   object (run [Set_alambre True, UpdateModel (Some camera0), Set_alambre False, UpdateModel (Some camera0)]
             (loaded nested)) \<noteq> Some nested \<and>
   object (run [Set_alambre True, UpdateModel (Some camera0), Set_alambre False, UpdateModel (Some camera0),
                Set_alambre True, UpdateModel (Some camera0)]
             (loaded nested)) =
     Some (Object3D ''Body'' (Mesh (BufferGeometry 0) (Material False 1)) []
            [Object3D ''Wheel'' (Mesh (BufferGeometry 1) (Material False 1)) []
               [wireframe (BufferGeometry 1)],
             wireframe (BufferGeometry 0), wireframe (BufferGeometry 0)]) \<and>
   object (run [Set_alambre True, UpdateModel (Some camera0), Set_alambre False, UpdateModel (Some camera0)]
             (loaded named_wireframe)) =
     Some (Object3D ''wireframe'' (Mesh (BufferGeometry 0) (Material False 1)) []
            [wireframe (BufferGeometry 0)]) \<and>
   object (run [Set_alambre True, UpdateModel (Some camera0), Set_alambre False, UpdateModel (Some camera0)]
             (loaded named_wireframe)) \<noteq> Some named_wireframe"
  by (simp add: update_defs traverse_object_simps setter_defs Model_constructor_def nested_def
      named_wireframe_def loaded_def state_of_def wireframe_def)

text \<open>
  C10. The flag \<open>bordes\<close> is false in the mode and in the snapshot of a new model and
  stays false whatever sequence of calls follows (no setter writes it), and \<open>updateModel\<close>
  neither reads nor writes it: with other values in the two \<open>bordes\<close> fields the call has
  the same outcome, with those values still in place.
\<close>

theorem bordes_never_used:
  "\<not> bordes (modo (run cs Model_constructor)) \<and>
   \<not> bordes (modoOldState (run cs Model_constructor)) \<and>
   updateModel camera (with_bordes b b' m) = map_outcome (with_bordes b b') (updateModel camera m)"
  using run_bordes [of cs Model_constructor]
  by (simp add: updateModel_with_bordes) (simp add: Model_constructor_def)

end
